theory Spec2Isabelle
  imports Main
begin

section \<open>Regexp router nodes of the REST router (service/rest/router/regexp.go)\<close>

text \<open>
  The file defines two router nodes, \<open>regexpNode\<close> and \<open>fullMatchRegexpNode\<close>, each with
  the methods \<open>Target\<close>, \<open>Kind\<close>, \<open>Match\<close> and \<open>Merge\<close>. Both embed a \<open>handler\<close> and a
  \<open>children\<close> struct whose types and methods are declared in other files of the package;
  their methods are parameters of the model (record \<open>collaborators\<close> below).
\<close>

subsection \<open>Errors and route kinds\<close>

text \<open>
  \<open>RouteKind\<close>: the source names only the kind \<open>Regexp\<close>; every other kind of the package
  is kept by its name.
\<close>

datatype RouteKind = Regexp | OtherKind string

text \<open>
  The error factories used by the file (\<open>routerNotFound.Error()\<close>,
  \<open>unknownRouterType.Error(kind, type)\<close>, \<open>unmatchedRouterRegexp.Error(a, b)\<close>,
  \<open>unmatchedRouterKey.Error(a, b)\<close>) with the arguments they are given. \<open>otherError\<close>
  stands for any further error value a collaborator may return. \<open>runtimePanic\<close> is not an
  error value of Go: it marks a call aborted by a run-time panic (index out of range in
  \<open>result[i.Pos]\<close>).
\<close>

datatype error =
    routerNotFound
  | unknownRouterType RouteKind string
  | unmatchedRouterRegexp string string
  | unmatchedRouterKey string string
  | otherError string
  | runtimePanic

subsection \<open>The capture sink\<close>

text \<open>
  Modelled from the spec: the interface \<open>Container\<close> is declared outside these source
  files; the source only calls \<open>c.Set(key, value)\<close>. Section 6 of the specification:
  \<open>set(key, value)\<close> inserts or overwrites a named string value. The sink is the sequence
  of the \<open>Set\<close> calls it has received, oldest first, so that "no call to Set" is an
  observable fact; a lookup sees the latest write of a key.
\<close>

type_synonym Container = "(string \<times> string) list"

definition Container_Set :: "Container \<Rightarrow> string \<Rightarrow> string \<Rightarrow> Container" where
  "Container_Set c k v = c @ [(k, v)]"

definition Container_Get :: "Container \<Rightarrow> string \<Rightarrow> string option" where
  "Container_Get c k = map_of (rev c) k"

subsection \<open>Data model\<close>

text \<open>\<open>type index struct { Key string; Pos int }\<close>\<close>

record index =
  Key :: string
  Pos :: int

text \<open>
  The two embedded structs \<open>handler\<close> and \<open>children\<close>, common to both nodes. Their state
  is opaque: the type variables \<open>'h\<close> and \<open>'ch\<close>.
\<close>

record ('h, 'ch) embedded =
  handler :: 'h
  children :: 'ch

text \<open>
  \<open>regexpNode\<close>. The field \<open>regexp *regexp.Regexp\<close> is used through one method only,
  \<open>FindStringSubmatch\<close>; the field holds that method of the compiled expression:
  \<open>None\<close> is the nil result (no match), \<open>Some result\<close> the slice of submatches.
\<close>

record ('h, 'ch) regexpNode = "('h, 'ch) embedded" +
  indices :: "index list"
  exp :: string
  regexp :: "string \<Rightarrow> string list option"

text \<open>\<open>fullMatchRegexpNode\<close>\<close>

record ('h, 'ch) fullMatchRegexpNode = "('h, 'ch) embedded" +
  key :: string

text \<open>
  The methods of the embedded collaborators that the file calls. Each is a method on a
  pointer receiver, so it returns the receiver's state after the call next to its Go
  results. \<open>children.Match\<close> also receives the sink and may write to it.
  \<open>unionExecutor\<close> is a method promoted from an embedded struct; following section 4.1
  of the specification (the first handler registered at the node that accepts the context)
  it is taken on the handler.
\<close>

record ('h, 'ch, 'ctx, 'e) collaborators =
  children_Match :: "'ch \<Rightarrow> 'ctx \<Rightarrow> Container \<Rightarrow> string \<Rightarrow> 'ch \<times> Container \<times> (error + 'e)"
  handler_pack :: "'h \<Rightarrow> 'e \<Rightarrow> 'h \<times> (error + 'e)"
  unionExecutor :: "'h \<Rightarrow> 'ctx \<Rightarrow> 'h \<times> (error + 'e)"
  handler_Merge :: "'h \<Rightarrow> 'h \<Rightarrow> 'h \<times> error option"
  children_merge :: "'ch \<Rightarrow> 'ch \<Rightarrow> 'ch \<times> error option"

text \<open>
  The interface \<open>Router\<close>: a value is one of the two nodes of this file or a node of
  another type of the package, of which \<open>Merge\<close> reads the kind and the name of the
  dynamic type only.
\<close>

datatype ('h, 'ch) Router =
    RegexpNode "('h, 'ch) regexpNode"
  | FullMatchRegexpNode "('h, 'ch) fullMatchRegexpNode"
  | OtherRouter RouteKind string

subsection \<open>Target and Kind\<close>

definition regexpNode_Target :: "('h, 'ch) regexpNode \<Rightarrow> string" where
  "regexpNode_Target n = exp n"

definition regexpNode_Kind :: "('h, 'ch) regexpNode \<Rightarrow> RouteKind" where
  "regexpNode_Kind n = Regexp"

definition fullMatchRegexpNode_Kind :: "('h, 'ch) fullMatchRegexpNode \<Rightarrow> RouteKind" where
  "fullMatchRegexpNode_Kind n = Regexp"

text \<open>\<open>r.Kind()\<close> and \<open>reflect.TypeOf(r).String()\<close> of an interface value.\<close>

fun Kind :: "('h, 'ch) Router \<Rightarrow> RouteKind" where
  "Kind (RegexpNode n) = regexpNode_Kind n"
| "Kind (FullMatchRegexpNode n) = fullMatchRegexpNode_Kind n"
| "Kind (OtherRouter k t) = k"

fun TypeOf_String :: "('h, 'ch) Router \<Rightarrow> string" where
  "TypeOf_String (RegexpNode n) = ''*router.regexpNode''"
| "TypeOf_String (FullMatchRegexpNode n) = ''*router.fullMatchRegexpNode''"
| "TypeOf_String (OtherRouter k t) = t"

subsection \<open>Match\<close>

text \<open>
  \<open>strings.IndexByte(s, c)\<close>: the index of the first byte \<open>c\<close> of \<open>s\<close>, or \<open>-1\<close>.
\<close>

fun IndexByte :: "string \<Rightarrow> char \<Rightarrow> int" where
  "IndexByte [] c = - 1"
| "IndexByte (x # xs) c =
     (if x = c then 0
      else (let i = IndexByte xs c in if i < 0 then - 1 else i + 1))"

text \<open>
  The loop \<open>for _, i := range n.indices { c.Set(i.Key, result[i.Pos]) }\<close>. Indexing the
  slice out of range panics; the writes made before stay in the caller's sink. The flag
  tells whether the loop ran to its end.
\<close>

fun set_values :: "index list \<Rightarrow> string list \<Rightarrow> Container \<Rightarrow> Container \<times> bool" where
  "set_values [] result c = (c, True)"
| "set_values (i # rest) result c =
     (if 0 \<le> Pos i \<and> Pos i < int (length result)
      then set_values rest result (Container_Set c (Key i) (result ! nat (Pos i)))
      else (c, False))"

text \<open>
  \<open>regexpNode.Match\<close>. The result is the node after the call, the sink after the call,
  and Go's pair \<open>(executor, error)\<close> as a sum. The slices \<open>path[:index]\<close> and
  \<open>path[index:]\<close> are always in range here (\<open>0 \<le> index \<le> len(path)\<close>).
\<close>

definition regexpNode_Match ::
  "('h, 'ch, 'ctx, 'e) collaborators \<Rightarrow> ('h, 'ch) regexpNode \<Rightarrow> 'ctx \<Rightarrow> Container \<Rightarrow> string
    \<Rightarrow> ('h, 'ch) regexpNode \<times> Container \<times> (error + 'e)" where
  "regexpNode_Match ops n ctx c path =
     (let index = IndexByte path CHR ''/'';
          index = (if index < 0 then int (length path) else index);
          segment = take (nat index) path
      in case regexp n segment of
           None \<Rightarrow> (n, c, Inl routerNotFound)
         | Some result \<Rightarrow>
             (let (n, c, r) =
                (if index < int (length path) then
                   (let (ch, c, r) = children_Match ops (children n) ctx c (drop (nat index) path);
                        n = n\<lparr>children := ch\<rparr>
                    in case r of
                         Inl err \<Rightarrow> (n, c, Inl err)
                       | Inr e \<Rightarrow>
                           (let (h, r) = handler_pack ops (handler n) e
                            in (n\<lparr>handler := h\<rparr>, c, r)))
                 else
                   (let (h, r) = unionExecutor ops (handler n) ctx
                    in (n\<lparr>handler := h\<rparr>, c, r)))
              in case r of
                   Inl err \<Rightarrow> (n, c, Inl err)
                 | Inr e \<Rightarrow>
                     (case set_values (indices n) result c of
                        (c, True) \<Rightarrow> (n, c, Inr e)
                      | (c, False) \<Rightarrow> (n, c, Inl runtimePanic))))"

text \<open>\<open>fullMatchRegexpNode.Match\<close>\<close>

definition fullMatchRegexpNode_Match ::
  "('h, 'ch, 'ctx, 'e) collaborators \<Rightarrow> ('h, 'ch) fullMatchRegexpNode \<Rightarrow> 'ctx \<Rightarrow> Container
    \<Rightarrow> string \<Rightarrow> ('h, 'ch) fullMatchRegexpNode \<times> Container \<times> (error + 'e)" where
  "fullMatchRegexpNode_Match ops n ctx c path =
     (let index = IndexByte path CHR ''/'';
          (n, c, r, index) =
            (if index > 0 then
               (let (ch, c, r) = children_Match ops (children n) ctx c (drop (nat index) path);
                    n = n\<lparr>children := ch\<rparr>
                in case r of
                     Inl err \<Rightarrow> (n, c, Inl err, index)
                   | Inr e \<Rightarrow>
                       (let (h, r) = handler_pack ops (handler n) e
                        in (n\<lparr>handler := h\<rparr>, c, r, index)))
             else
               (let index = int (length path);
                    (h, r) = unionExecutor ops (handler n) ctx
                in (n\<lparr>handler := h\<rparr>, c, r, index)))
      in case r of
           Inl err \<Rightarrow> (n, c, Inl err)
         | Inr e \<Rightarrow> (n, Container_Set c (key n) (take (nat index) path), Inr e))"

subsection \<open>Merge\<close>

text \<open>
  \<open>regexpNode.Merge\<close> and \<open>fullMatchRegexpNode.Merge\<close>. The first component is the
  receiver after the call. On success Go returns the receiver itself, here the node after
  the call wrapped as a \<open>Router\<close>.
\<close>

definition regexpNode_Merge ::
  "('h, 'ch, 'ctx, 'e) collaborators \<Rightarrow> ('h, 'ch) regexpNode \<Rightarrow> ('h, 'ch) Router
    \<Rightarrow> ('h, 'ch) regexpNode \<times> (error + ('h, 'ch) Router)" where
  "regexpNode_Merge ops n r =
     (case r of
        RegexpNode node \<Rightarrow>
          if exp n \<noteq> exp node then (n, Inl (unmatchedRouterRegexp (exp n) (exp node)))
          else
            (case handler_Merge ops (handler n) (handler node) of
               (h, Some err) \<Rightarrow> (n\<lparr>handler := h\<rparr>, Inl err)
             | (h, None) \<Rightarrow>
                 (let n = n\<lparr>handler := h\<rparr>
                  in case children_merge ops (children n) (children node) of
                       (ch, Some err) \<Rightarrow> (n\<lparr>children := ch\<rparr>, Inl err)
                     | (ch, None) \<Rightarrow>
                         (let n = n\<lparr>children := ch\<rparr> in (n, Inr (RegexpNode n)))))
      | _ \<Rightarrow> (n, Inl (unknownRouterType (Kind r) (TypeOf_String r))))"

definition fullMatchRegexpNode_Merge ::
  "('h, 'ch, 'ctx, 'e) collaborators \<Rightarrow> ('h, 'ch) fullMatchRegexpNode \<Rightarrow> ('h, 'ch) Router
    \<Rightarrow> ('h, 'ch) fullMatchRegexpNode \<times> (error + ('h, 'ch) Router)" where
  "fullMatchRegexpNode_Merge ops n r =
     (case r of
        FullMatchRegexpNode node \<Rightarrow>
          if key n \<noteq> key node then (n, Inl (unmatchedRouterKey (key n) (key node)))
          else
            (case handler_Merge ops (handler n) (handler node) of
               (h, Some err) \<Rightarrow> (n\<lparr>handler := h\<rparr>, Inl err)
             | (h, None) \<Rightarrow>
                 (let n = n\<lparr>handler := h\<rparr>
                  in case children_merge ops (children n) (children node) of
                       (ch, Some err) \<Rightarrow> (n\<lparr>children := ch\<rparr>, Inl err)
                     | (ch, None) \<Rightarrow>
                         (let n = n\<lparr>children := ch\<rparr> in (n, Inr (FullMatchRegexpNode n)))))
      | _ \<Rightarrow> (n, Inl (unknownRouterType (Kind r) (TypeOf_String r))))"

subsection \<open>Vocabulary of the specification\<close>

text \<open>
  The leading segment of a path: the prefix up to the next separator, or the whole path
  if there is none; and what remains of the path from that separator on.
\<close>

definition leading_segment :: "string \<Rightarrow> string" where
  "leading_segment path = takeWhile (\<lambda>x. x \<noteq> CHR ''/'') path"

definition remainder :: "string \<Rightarrow> string" where
  "remainder path = dropWhile (\<lambda>x. x \<noteq> CHR ''/'') path"

text \<open>
  The downstream resolution of a node, made of the collaborators' calls only: with
  \<open>delegate\<close> the children match the rest of the path and the handler packs their
  executor; without it the handler selects the terminal executor. It yields the handler and
  the children after the calls, the sink as the collaborators leave it, and their result.
\<close>

definition downstream ::
  "('h, 'ch, 'ctx, 'e) collaborators \<Rightarrow> 'h \<Rightarrow> 'ch \<Rightarrow> 'ctx \<Rightarrow> Container \<Rightarrow> bool \<Rightarrow> string
    \<Rightarrow> ('h \<times> 'ch) \<times> Container \<times> (error + 'e)" where
  "downstream ops h ch ctx c delegate rest =
     (if delegate then
        (case children_Match ops ch ctx c rest of
           (ch', c', Inl err) \<Rightarrow> ((h, ch'), c', Inl err)
         | (ch', c', Inr e) \<Rightarrow>
             (case handler_pack ops h e of (h', r) \<Rightarrow> ((h', ch'), c', r)))
      else
        (case unionExecutor ops h ctx of (h', r) \<Rightarrow> ((h', ch), c, r)))"

subsection \<open>Concrete scenarios\<close>

text \<open>
  The compiled matcher of the pattern \<open>([0-9]+)\<close>, as Go documents
  \<open>FindStringSubmatch\<close>: the text of the leftmost match, here the first maximal run of
  digits, followed by the text of its one group; nil when the string has no digit.
\<close>

definition digit :: "char \<Rightarrow> bool" where
  "digit x = (x \<in> set ''0123456789'')"

definition FindStringSubmatch_digits :: "string \<Rightarrow> string list option" where
  "FindStringSubmatch_digits s =
     (let m = takeWhile digit (dropWhile (\<lambda>x. \<not> digit x) s)
      in if m = [] then None else Some [m, m])"

text \<open>
  Stand-ins for the collaborators, whose code is not in these files. A handler is the list
  of the executors registered at the node (numbers); the terminal executor is the first
  one; packing fails on the executor 0. The children are a table from the rest of a path
  to the captures the matching child writes and its executor. Merging appends; merging
  children stops at the first path both tables have.
\<close>

type_synonym table = "(string \<times> Container \<times> nat) list"

fun merge_table :: "table \<Rightarrow> table \<Rightarrow> table \<times> error option" where
  "merge_table ch [] = (ch, None)"
| "merge_table ch ((p, w) # rest) =
     (case map_of ch p of
        Some _ \<Rightarrow> (ch, Some (otherError p))
      | None \<Rightarrow> merge_table (ch @ [(p, w)]) rest)"

definition table_ops :: "(nat list, table, unit, nat) collaborators" where
  "table_ops =
     \<lparr> children_Match = (\<lambda>ch ctx c rest.
         case map_of ch rest of
           None \<Rightarrow> (ch, c, Inl routerNotFound)
         | Some (w, e) \<Rightarrow> (ch, c @ w, Inr e)),
       handler_pack = (\<lambda>h e. (h, if e = 0 then Inl (otherError ''pack'') else Inr e)),
       unionExecutor = (\<lambda>h ctx. (h, case h of [] \<Rightarrow> Inl routerNotFound | e # _ \<Rightarrow> Inr e)),
       handler_Merge = (\<lambda>h h2. (h @ h2, None)),
       children_merge = merge_table \<rparr>"

text \<open>
  A pattern node for one or more digits with the capture \<open>id\<close> at position 1, and a
  catch-all node with the key \<open>name\<close>.
\<close>

definition id_node :: "(nat list, table) regexpNode" where
  "id_node =
     \<lparr> handler = [7], children = [(''/orders'', [(''list'', ''all'')], 9), (''/void'', [(''v'', ''w'')], 0)],
       indices = [\<lparr>Key = ''id'', Pos = 1\<rparr>], exp = ''([0-9]+)'',
       regexp = FindStringSubmatch_digits \<rparr>"

definition name_node :: "(nat list, table) fullMatchRegexpNode" where
  "name_node =
     \<lparr> handler = [7], children = [(''/x'', [], 9), (''/void'', [(''v'', ''w'')], 0)],
       key = ''name'' \<rparr>"

text \<open>
  The compiled matcher of the pattern \<open>(.*)\<close>, the pattern that accepts every segment, as
  Go documents \<open>FindStringSubmatch\<close>: the match starts at the first byte and runs to the
  first newline or to the end; it is never nil. A pattern node with it and the capture
  \<open>name\<close> at position 1 is the node that the catch-all node stands for.
\<close>

definition FindStringSubmatch_all :: "string \<Rightarrow> string list option" where
  "FindStringSubmatch_all s =
     (let m = takeWhile (\<lambda>x. x \<noteq> CHR 0x0A) s in Some [m, m])"

definition all_node :: "(nat list, table) regexpNode" where
  "all_node =
     \<lparr> handler = [7], children = [(''/x'', [], 9), (''/void'', [(''v'', ''w'')], 0)],
       indices = [\<lparr>Key = ''name'', Pos = 1\<rparr>], exp = ''(.*)'',
       regexp = FindStringSubmatch_all \<rparr>"

subsection \<open>The collaborators while matching, as the specification gives them\<close>

text \<open>
  Modelled from the spec: the methods \<open>children.Match\<close>, \<open>handler.pack\<close> and
  \<open>unionExecutor\<close> are declared outside these source files. Section 6 of the
  specification gives them as \<open>children.match(context, captureSink, path) -> (unitOfWork,
  error)\<close> and \<open>handler.compose(unitOfWork) -> (unitOfWork, error)\<close>, and section 5 says of
  matching that it performs no mutation of the tree and only writes into the caller's sink.
  So each of the three reads its receiver and yields its results, \<open>children.match\<close> with
  the sink as it leaves it; the receiver after the call is the receiver before it. The two
  merge methods are left as they are.
\<close>

definition spec_collaborators ::
  "('ch \<Rightarrow> 'ctx \<Rightarrow> Container \<Rightarrow> string \<Rightarrow> Container \<times> (error + 'e)) \<Rightarrow>
   ('h \<Rightarrow> 'e \<Rightarrow> error + 'e) \<Rightarrow>
   ('h \<Rightarrow> 'ctx \<Rightarrow> error + 'e) \<Rightarrow>
   ('h \<Rightarrow> 'h \<Rightarrow> 'h \<times> error option) \<Rightarrow>
   ('ch \<Rightarrow> 'ch \<Rightarrow> 'ch \<times> error option) \<Rightarrow> ('h, 'ch, 'ctx, 'e) collaborators" where
  "spec_collaborators cmatch hpack uexec hmerge chmerge =
     \<lparr> children_Match = (\<lambda>ch ctx c rest. case cmatch ch ctx c rest of (c', r) \<Rightarrow> (ch, c', r)),
       handler_pack = (\<lambda>h e. (h, hpack h e)),
       unionExecutor = (\<lambda>h ctx. (h, uexec h ctx)),
       handler_Merge = hmerge,
       children_merge = chmerge \<rparr>"

section \<open>Properties\<close>

subsection \<open>The source's index arithmetic and the leading segment\<close>

lemma IndexByte_takeWhile:
  "IndexByte s c = (if c \<in> set s then int (length (takeWhile (\<lambda>x. x \<noteq> c) s)) else - 1)"
  by (induction s) (auto simp: Let_def)

lemma length_leading_segment:
  "length (leading_segment path) + length (remainder path) = length path"
  unfolding leading_segment_def remainder_def
  by (metis length_append takeWhile_dropWhile_id)

lemma remainder_Nil: "remainder path = [] \<longleftrightarrow> CHR ''/'' \<notin> set path"
  unfolding remainder_def by auto

lemma leading_segment_no_separator: "CHR ''/'' \<notin> set path \<Longrightarrow> leading_segment path = path"
  unfolding leading_segment_def by auto

lemma index_segment:
  "take (nat (if IndexByte path CHR ''/'' < 0 then int (length path) else IndexByte path CHR ''/'')) path
     = leading_segment path"
proof (cases "CHR ''/'' \<in> set path")
  case True
  then show ?thesis
    by (simp add: IndexByte_takeWhile leading_segment_def takeWhile_eq_take [symmetric])
next
  case False
  then show ?thesis
    by (simp add: IndexByte_takeWhile leading_segment_no_separator)
qed

lemma index_remainder:
  "CHR ''/'' \<in> set path \<Longrightarrow> drop (nat (IndexByte path CHR ''/'')) path = remainder path"
  by (simp add: IndexByte_takeWhile remainder_def dropWhile_eq_drop [symmetric])

lemma index_less_length:
  "(if IndexByte path CHR ''/'' < 0 then int (length path) else IndexByte path CHR ''/'') < int (length path)
     \<longleftrightarrow> remainder path \<noteq> []"
proof (cases "CHR ''/'' \<in> set path")
  case True
  then have "remainder path \<noteq> []" by (simp add: remainder_Nil)
  then have "length (leading_segment path) < length path"
    using length_leading_segment [of path] by (cases "remainder path") auto
  with True show ?thesis
    by (simp add: IndexByte_takeWhile remainder_Nil leading_segment_def)
next
  case False
  then show ?thesis by (simp add: IndexByte_takeWhile remainder_Nil)
qed

lemma index_positive:
  "IndexByte path CHR ''/'' > 0 \<longleftrightarrow> leading_segment path \<noteq> [] \<and> remainder path \<noteq> []"
  by (cases path) (auto simp: IndexByte_takeWhile remainder_Nil leading_segment_def)

lemma index_remainder_if:
  "remainder path \<noteq> [] \<Longrightarrow>
   drop (nat (if IndexByte path CHR ''/'' < 0 then int (length path) else IndexByte path CHR ''/'')) path
     = remainder path"
  by (simp add: IndexByte_takeWhile remainder_def dropWhile_eq_drop [symmetric])

lemma regexpNode_Match_eq:
  "regexpNode_Match ops n ctx c path =
     (case regexp n (leading_segment path) of
        None \<Rightarrow> (n, c, Inl routerNotFound)
      | Some result \<Rightarrow>
          (case downstream ops (handler n) (children n) ctx c (remainder path \<noteq> []) (remainder path) of
             ((h, ch), c1, Inl err) \<Rightarrow> (n\<lparr>handler := h, children := ch\<rparr>, c1, Inl err)
           | ((h, ch), c1, Inr e) \<Rightarrow>
               (case set_values (indices n) result c1 of
                  (c2, True) \<Rightarrow> (n\<lparr>handler := h, children := ch\<rparr>, c2, Inr e)
                | (c2, False) \<Rightarrow> (n\<lparr>handler := h, children := ch\<rparr>, c2, Inl runtimePanic))))"
proof (cases "regexp n (leading_segment path)")
  case None
  then show ?thesis
    unfolding regexpNode_Match_def Let_def index_segment by simp
next
  case (Some result)
  show ?thesis
  proof (cases "remainder path \<noteq> []")
    case True
    obtain ch c1 r where cm:
      "children_Match ops (children n) ctx c (remainder path) = (ch, c1, r)"
      by (cases "children_Match ops (children n) ctx c (remainder path)") auto
    show ?thesis
    proof (cases r)
      case (Inl err)
      with Some True cm show ?thesis
        unfolding regexpNode_Match_def Let_def index_segment index_less_length downstream_def
        by (simp add: index_remainder_if)
    next
      case (Inr e)
      obtain h r2 where hp: "handler_pack ops (handler n) e = (h, r2)"
        by (cases "handler_pack ops (handler n) e") auto
      from Some True cm Inr hp show ?thesis
        unfolding regexpNode_Match_def Let_def index_segment index_less_length downstream_def
        by (simp add: index_remainder_if split: sum.splits prod.splits bool.splits)
    qed
  next
    case False
    obtain h r where ue: "unionExecutor ops (handler n) ctx = (h, r)"
      by (cases "unionExecutor ops (handler n) ctx") auto
    from Some False ue show ?thesis
      unfolding regexpNode_Match_def Let_def index_segment index_less_length downstream_def
      by (simp split: sum.splits prod.splits bool.splits)
  qed
qed

lemma fullMatchRegexpNode_Match_eq:
  "fullMatchRegexpNode_Match ops n ctx c path =
     (let delegate = (leading_segment path \<noteq> [] \<and> remainder path \<noteq> []) in
      case downstream ops (handler n) (children n) ctx c delegate (remainder path) of
        ((h, ch), c1, Inl err) \<Rightarrow> (n\<lparr>handler := h, children := ch\<rparr>, c1, Inl err)
      | ((h, ch), c1, Inr e) \<Rightarrow>
          (n\<lparr>handler := h, children := ch\<rparr>,
           Container_Set c1 (key n) (if delegate then leading_segment path else path), Inr e))"
proof -
  define delegate where "delegate = (leading_segment path \<noteq> [] \<and> remainder path \<noteq> [])"
  have i: "IndexByte path CHR ''/'' > 0 \<longleftrightarrow> delegate"
    by (simp add: index_positive delegate_def)
  show ?thesis
  proof (cases delegate)
    case True
    then have m: "CHR ''/'' \<in> set path" by (simp add: remainder_Nil delegate_def)
    have s: "take (nat (IndexByte path CHR ''/'')) path = leading_segment path"
      using index_segment [of path] True i by simp
    show ?thesis
      unfolding fullMatchRegexpNode_Match_def Let_def downstream_def delegate_def [symmetric] i
      using True
      by (simp add: index_remainder [OF m] s split: prod.splits sum.splits)
  next
    case False
    show ?thesis
      unfolding fullMatchRegexpNode_Match_def Let_def downstream_def delegate_def [symmetric] i
      using False
      by (simp split: prod.splits sum.splits)
  qed
qed

subsection \<open>Facts shared by the claims\<close>

lemma downstream_sink:
  "fst (snd (downstream ops h ch ctx c delegate rest)) =
     (if delegate then fst (snd (children_Match ops ch ctx c rest)) else c)"
  unfolding downstream_def
  by (simp split: prod.splits sum.splits)

lemma digits_42: "FindStringSubmatch_digits ''42'' = Some [''42'', ''42'']"
  by (simp add: FindStringSubmatch_digits_def digit_def Let_def)

lemma digits_abc: "FindStringSubmatch_digits ''abc'' = None"
  by (simp add: FindStringSubmatch_digits_def digit_def Let_def)

lemma digits_ab42cd: "FindStringSubmatch_digits ''ab42cd'' = Some [''42'', ''42'']"
  by (simp add: FindStringSubmatch_digits_def digit_def Let_def)

lemma segment_42_void: "leading_segment ''42/void'' = ''42''" "remainder ''42/void'' = ''/void''"
  by (simp_all add: leading_segment_def remainder_def)

subsection \<open>Pattern node: no match\<close>

text \<open>
  C2. For every path whose leading segment does not satisfy the pattern node's compiled
  pattern (\<open>FindStringSubmatch\<close> returns nil on it), \<open>Match\<close> fails with the
  \<open>routerNotFound\<close> error, and the sink after the call is the sink before it: no call to
  \<open>Set\<close> was made, by the node or by a collaborator. The node is unchanged as well.
\<close>

theorem regexpNode_Match_not_found:
  assumes "regexp n (leading_segment path) = None"
  shows "regexpNode_Match ops n ctx c path = (n, c, Inl routerNotFound)"
  using assms by (simp add: regexpNode_Match_eq)

theorem regexpNode_Match_not_found_witness:
  "regexp id_node (leading_segment ''abc'') = None \<and>
   regexpNode_Match table_ops id_node () [(''k'', ''v'')] ''abc''
     = (id_node, [(''k'', ''v'')], Inl routerNotFound)"
proof -
  have h: "regexp id_node (leading_segment ''abc'') = None"
    by (simp add: id_node_def leading_segment_def digits_abc)
  show ?thesis
    using h regexpNode_Match_not_found [OF h, of table_ops "()" "[(''k'', ''v'')]"] by simp
qed

subsection \<open>Commit on success\<close>

text \<open>
  C3. For both node kinds: if the node's own segment match succeeds but the downstream
  resolution (children delegation, handler pack, or terminal executor selection) returns
  an error, \<open>Match\<close> returns that error, and the sink after the call is the sink as the
  collaborators left it (the sink returned by \<open>children.Match\<close> when it was called, the
  caller's sink otherwise): the node itself has made no call to \<open>Set\<close>.
\<close>

theorem match_commit_on_success:
  "(regexp n (leading_segment path) = Some result \<and>
    downstream ops (handler n) (children n) ctx c (remainder path \<noteq> []) (remainder path)
      = ((h, ch), c1, Inl err)
    \<longrightarrow> regexpNode_Match ops n ctx c path = (n\<lparr>handler := h, children := ch\<rparr>, c1, Inl err) \<and>
        c1 = (if remainder path \<noteq> []
              then fst (snd (children_Match ops (children n) ctx c (remainder path))) else c)) \<and>
   (downstream ops (handler m) (children m) ctx c
      (leading_segment path \<noteq> [] \<and> remainder path \<noteq> []) (remainder path)
      = ((hm, chm), cm, Inl errm)
    \<longrightarrow> fullMatchRegexpNode_Match ops m ctx c path = (m\<lparr>handler := hm, children := chm\<rparr>, cm, Inl errm) \<and>
        cm = (if leading_segment path \<noteq> [] \<and> remainder path \<noteq> []
              then fst (snd (children_Match ops (children m) ctx c (remainder path))) else c))"
proof (intro conjI impI)
  assume a: "regexp n (leading_segment path) = Some result \<and>
    downstream ops (handler n) (children n) ctx c (remainder path \<noteq> []) (remainder path)
      = ((h, ch), c1, Inl err)"
  then show "regexpNode_Match ops n ctx c path = (n\<lparr>handler := h, children := ch\<rparr>, c1, Inl err)"
    by (simp add: regexpNode_Match_eq)
  from a show "c1 = (if remainder path \<noteq> []
              then fst (snd (children_Match ops (children n) ctx c (remainder path))) else c)"
    using downstream_sink [of ops "handler n" "children n" ctx c "remainder path \<noteq> []" "remainder path"]
    by simp
next
  assume a: "downstream ops (handler m) (children m) ctx c
      (leading_segment path \<noteq> [] \<and> remainder path \<noteq> []) (remainder path)
      = ((hm, chm), cm, Inl errm)"
  then show "fullMatchRegexpNode_Match ops m ctx c path = (m\<lparr>handler := hm, children := chm\<rparr>, cm, Inl errm)"
    by (simp add: fullMatchRegexpNode_Match_eq)
  from a show "cm = (if leading_segment path \<noteq> [] \<and> remainder path \<noteq> []
              then fst (snd (children_Match ops (children m) ctx c (remainder path))) else c)"
    using downstream_sink [of ops "handler m" "children m" ctx c
        "leading_segment path \<noteq> [] \<and> remainder path \<noteq> []" "remainder path"]
    by simp
qed

theorem match_commit_on_success_witness:
  "regexp id_node (leading_segment ''42/void'') = Some [''42'', ''42''] \<and>
   downstream table_ops (handler id_node) (children id_node) () [] (remainder ''42/void'' \<noteq> [])
     (remainder ''42/void'') = ((handler id_node, children id_node), [(''v'', ''w'')], Inl (otherError ''pack'')) \<and>
   regexpNode_Match table_ops id_node () [] ''42/void''
     = (id_node, [(''v'', ''w'')], Inl (otherError ''pack'')) \<and>
   downstream table_ops (handler name_node) (children name_node) () []
     (leading_segment ''42/void'' \<noteq> [] \<and> remainder ''42/void'' \<noteq> [])
     (remainder ''42/void'') = ((handler name_node, children name_node), [(''v'', ''w'')], Inl (otherError ''pack'')) \<and>
   fullMatchRegexpNode_Match table_ops name_node () [] ''42/void''
     = (name_node, [(''v'', ''w'')], Inl (otherError ''pack''))"
proof -
  have h1: "regexp id_node (leading_segment ''42/void'') = Some [''42'', ''42'']"
    by (simp add: id_node_def segment_42_void digits_42)
  have h2: "downstream table_ops (handler id_node) (children id_node) () [] (remainder ''42/void'' \<noteq> [])
     (remainder ''42/void'') = ((handler id_node, children id_node), [(''v'', ''w'')], Inl (otherError ''pack''))"
    by (simp add: downstream_def table_ops_def id_node_def segment_42_void)
  have h3: "downstream table_ops (handler name_node) (children name_node) () []
     (leading_segment ''42/void'' \<noteq> [] \<and> remainder ''42/void'' \<noteq> [])
     (remainder ''42/void'') = ((handler name_node, children name_node), [(''v'', ''w'')], Inl (otherError ''pack''))"
    by (simp add: downstream_def table_ops_def name_node_def segment_42_void)
  show ?thesis
    using h1 h2 h3
      match_commit_on_success [of id_node "''42/void''" "[''42'', ''42'']" table_ops "()" "[]"
        "handler id_node" "children id_node" "[(''v'', ''w'')]" "otherError ''pack''"
        name_node "handler name_node" "children name_node" "[(''v'', ''w'')]" "otherError ''pack''"]
    by simp
qed

subsection \<open>Merge: structural conflicts\<close>

text \<open>
  C5. \<open>Merge\<close> with a node of another concrete type fails with the error
  \<open>unknownRouterType\<close> (the kind mismatch), which carries the other node's kind and the
  name of its type; \<open>Merge\<close> of two pattern nodes with different pattern sources fails
  with \<open>unmatchedRouterRegexp\<close> carrying both patterns; \<open>Merge\<close> of two catch-all
  nodes with different keys fails with \<open>unmatchedRouterKey\<close> carrying both keys. In each
  case the receiver is left as it was.
\<close>

theorem merge_mismatch:
  "regexpNode_Merge ops n (FullMatchRegexpNode m)
     = (n, Inl (unknownRouterType Regexp ''*router.fullMatchRegexpNode'')) \<and>
   regexpNode_Merge ops n (OtherRouter k t) = (n, Inl (unknownRouterType k t)) \<and>
   fullMatchRegexpNode_Merge ops m (RegexpNode n)
     = (m, Inl (unknownRouterType Regexp ''*router.regexpNode'')) \<and>
   fullMatchRegexpNode_Merge ops m (OtherRouter k t) = (m, Inl (unknownRouterType k t)) \<and>
   (exp n \<noteq> exp n2 \<longrightarrow>
      regexpNode_Merge ops n (RegexpNode n2) = (n, Inl (unmatchedRouterRegexp (exp n) (exp n2)))) \<and>
   (key m \<noteq> key m2 \<longrightarrow>
      fullMatchRegexpNode_Merge ops m (FullMatchRegexpNode m2)
        = (m, Inl (unmatchedRouterKey (key m) (key m2))))"
  by (simp add: regexpNode_Merge_def fullMatchRegexpNode_Merge_def regexpNode_Kind_def
      fullMatchRegexpNode_Kind_def)

theorem merge_mismatch_witness:
  "exp id_node \<noteq> exp (id_node\<lparr>exp := ''([a-z]+)''\<rparr>) \<and>
   regexpNode_Merge table_ops id_node (RegexpNode (id_node\<lparr>exp := ''([a-z]+)''\<rparr>))
     = (id_node, Inl (unmatchedRouterRegexp ''([0-9]+)'' ''([a-z]+)'')) \<and>
   key name_node \<noteq> key (name_node\<lparr>key := ''user''\<rparr>) \<and>
   fullMatchRegexpNode_Merge table_ops name_node (FullMatchRegexpNode (name_node\<lparr>key := ''user''\<rparr>))
     = (name_node, Inl (unmatchedRouterKey ''name'' ''user'')) \<and>
   regexpNode_Merge table_ops id_node (FullMatchRegexpNode name_node)
     = (id_node, Inl (unknownRouterType Regexp ''*router.fullMatchRegexpNode''))"
proof -
  have h1: "exp id_node \<noteq> exp (id_node\<lparr>exp := ''([a-z]+)''\<rparr>)"
    by (simp add: id_node_def)
  have h2: "key name_node \<noteq> key (name_node\<lparr>key := ''user''\<rparr>)"
    by (simp add: name_node_def)
  have e: "exp id_node = ''([0-9]+)''" "key name_node = ''name''"
    by (simp_all add: id_node_def name_node_def)
  show ?thesis
    using h1 h2 e
      merge_mismatch [of table_ops id_node name_node "Regexp" "[]"
        "id_node\<lparr>exp := ''([a-z]+)''\<rparr>" "name_node\<lparr>key := ''user''\<rparr>"]
    by simp
qed

subsection \<open>Merge is not atomic\<close>

text \<open>
  C6. For two structurally compatible nodes (same pattern source, or same key): if the
  handlers' merge succeeds, leaving the handler \<open>h\<close>, and the children's merge then
  fails with an error, leaving the children \<open>ch\<close>, \<open>Merge\<close> returns that error and the
  receiver keeps both \<open>h\<close> and \<open>ch\<close>: nothing is rolled back.
\<close>

theorem merge_not_atomic:
  "(exp n = exp n2 \<and>
    handler_Merge ops (handler n) (handler n2) = (h, None) \<and>
    children_merge ops (children n) (children n2) = (ch, Some err)
    \<longrightarrow> regexpNode_Merge ops n (RegexpNode n2) = (n\<lparr>handler := h, children := ch\<rparr>, Inl err)) \<and>
   (key m = key m2 \<and>
    handler_Merge ops (handler m) (handler m2) = (hm, None) \<and>
    children_merge ops (children m) (children m2) = (chm, Some errm)
    \<longrightarrow> fullMatchRegexpNode_Merge ops m (FullMatchRegexpNode m2)
          = (m\<lparr>handler := hm, children := chm\<rparr>, Inl errm))"
  by (simp add: regexpNode_Merge_def fullMatchRegexpNode_Merge_def)

lemma merge_table_conflict:
  "merge_table [(''/orders'', [(''list'', ''all'')], 9), (''/void'', [(''v'', ''w'')], 0)]
     [(''/new'', [], 5), (''/orders'', [], 6)]
   = ([(''/orders'', [(''list'', ''all'')], 9), (''/void'', [(''v'', ''w'')], 0), (''/new'', [], 5)],
      Some (otherError ''/orders''))"
  "merge_table [(''/x'', [], 9), (''/void'', [(''v'', ''w'')], 0)]
     [(''/new'', [], 5), (''/x'', [], 6)]
   = ([(''/x'', [], 9), (''/void'', [(''v'', ''w'')], 0), (''/new'', [], 5)],
      Some (otherError ''/x''))"
  by simp_all

theorem merge_not_atomic_witness:
  "exp id_node = exp (id_node\<lparr>handler := [8], children := [(''/new'', [], 5), (''/orders'', [], 6)]\<rparr>) \<and>
   handler_Merge table_ops (handler id_node) [8] = ([7, 8], None) \<and>
   children_merge table_ops (children id_node) [(''/new'', [], 5), (''/orders'', [], 6)]
     = (children id_node @ [(''/new'', [], 5)], Some (otherError ''/orders'')) \<and>
   regexpNode_Merge table_ops id_node
       (RegexpNode (id_node\<lparr>handler := [8], children := [(''/new'', [], 5), (''/orders'', [], 6)]\<rparr>))
     = (id_node\<lparr>handler := [7, 8], children := children id_node @ [(''/new'', [], 5)]\<rparr>,
        Inl (otherError ''/orders'')) \<and>
   id_node\<lparr>handler := [7, 8], children := children id_node @ [(''/new'', [], 5)]\<rparr> \<noteq> id_node \<and>
   key name_node = key (name_node\<lparr>handler := [8], children := [(''/new'', [], 5), (''/x'', [], 6)]\<rparr>) \<and>
   fullMatchRegexpNode_Merge table_ops name_node
       (FullMatchRegexpNode (name_node\<lparr>handler := [8], children := [(''/new'', [], 5), (''/x'', [], 6)]\<rparr>))
     = (name_node\<lparr>handler := [7, 8], children := children name_node @ [(''/new'', [], 5)]\<rparr>,
        Inl (otherError ''/x''))"
proof -
  have h1: "handler_Merge table_ops (handler id_node) [8] = ([7, 8], None)"
    "handler_Merge table_ops (handler name_node) [8] = ([7, 8], None)"
    by (simp_all add: table_ops_def id_node_def name_node_def)
  have h2: "children_merge table_ops (children id_node) [(''/new'', [], 5), (''/orders'', [], 6)]
     = (children id_node @ [(''/new'', [], 5)], Some (otherError ''/orders''))"
    by (simp add: table_ops_def id_node_def merge_table_conflict del: merge_table.simps)
  have h3: "children_merge table_ops (children name_node) [(''/new'', [], 5), (''/x'', [], 6)]
     = (children name_node @ [(''/new'', [], 5)], Some (otherError ''/x''))"
    by (simp add: table_ops_def name_node_def merge_table_conflict del: merge_table.simps)
  have d: "id_node\<lparr>handler := [7, 8], children := children id_node @ [(''/new'', [], 5)]\<rparr> \<noteq> id_node"
    by (simp add: id_node_def)
  show ?thesis
    using h1 h2 h3 d
      merge_not_atomic [of id_node
        "id_node\<lparr>handler := [8], children := [(''/new'', [], 5), (''/orders'', [], 6)]\<rparr>"
        table_ops "[7, 8]" "children id_node @ [(''/new'', [], 5)]" "otherError ''/orders''"
        name_node "name_node\<lparr>handler := [8], children := [(''/new'', [], 5), (''/x'', [], 6)]\<rparr>"
        "[7, 8]" "children name_node @ [(''/new'', [], 5)]" "otherError ''/x''"]
    by simp
qed

subsection \<open>Successful match and captures\<close>

lemma set_values_valid:
  "\<forall>i\<in>set is. 0 \<le> Pos i \<and> Pos i < int (length result) \<Longrightarrow>
   set_values is result c = (c @ map (\<lambda>i. (Key i, result ! nat (Pos i))) is, True)"
  by (induction "is" arbitrary: c) (simp_all add: Container_Set_def)

lemma Container_Get_written:
  assumes "distinct (map Key is)" and "i \<in> set is"
  shows "Container_Get (c @ map (\<lambda>i. (Key i, f i)) is) (Key i) = Some (f i)"
proof -
  let ?ws = "rev (map (\<lambda>i. (Key i, f i)) is)"
  have "distinct (map fst ?ws)"
    using assms(1) by (simp add: rev_map [symmetric] comp_def)
  moreover have "(Key i, f i) \<in> set ?ws"
    using assms(2) by auto
  ultimately have "map_of ?ws (Key i) = Some (f i)"
    by (rule map_of_is_SomeI)
  then show ?thesis
    by (simp add: Container_Get_def)
qed

lemma Container_Get_Set: "Container_Get (Container_Set c k v) k = Some v"
  by (simp add: Container_Get_def Container_Set_def)

text \<open>
  C1, as the code has it. As stated the claim fails: a node whose own segment matches still
  fails when the downstream resolution fails. What holds: if the leading segment satisfies
  the pattern (for a catch-all node: is not empty) and the downstream resolution succeeds
  with an executor, then \<open>Match\<close> succeeds with that executor and the sink is the one the
  collaborators left followed by this node's writes; for a pattern node whose positions
  are valid indices of the submatches and whose keys are distinct (section 3 of the
  specification), every key of the capture-index list maps to the submatch at its position;
  for a catch-all node the key maps to the whole leading segment.
\<close>

theorem match_captures:
  "(regexp n (leading_segment path) = Some result \<and>
    (\<forall>i\<in>set (indices n). 0 \<le> Pos i \<and> Pos i < int (length result)) \<and>
    distinct (map Key (indices n)) \<and>
    downstream ops (handler n) (children n) ctx c (remainder path \<noteq> []) (remainder path)
      = ((h, ch), c1, Inr e)
    \<longrightarrow> regexpNode_Match ops n ctx c path
          = (n\<lparr>handler := h, children := ch\<rparr>,
             c1 @ map (\<lambda>i. (Key i, result ! nat (Pos i))) (indices n), Inr e) \<and>
        (\<forall>i\<in>set (indices n).
           Container_Get (fst (snd (regexpNode_Match ops n ctx c path))) (Key i)
             = Some (result ! nat (Pos i)))) \<and>
   (leading_segment path \<noteq> [] \<and>
    downstream ops (handler m) (children m) ctx c (remainder path \<noteq> []) (remainder path)
      = ((hm, chm), cm, Inr em)
    \<longrightarrow> fullMatchRegexpNode_Match ops m ctx c path
          = (m\<lparr>handler := hm, children := chm\<rparr>, cm @ [(key m, leading_segment path)], Inr em) \<and>
        Container_Get (fst (snd (fullMatchRegexpNode_Match ops m ctx c path))) (key m)
          = Some (leading_segment path))"
proof (intro conjI impI)
  assume a: "regexp n (leading_segment path) = Some result \<and>
    (\<forall>i\<in>set (indices n). 0 \<le> Pos i \<and> Pos i < int (length result)) \<and>
    distinct (map Key (indices n)) \<and>
    downstream ops (handler n) (children n) ctx c (remainder path \<noteq> []) (remainder path)
      = ((h, ch), c1, Inr e)"
  then have sv: "set_values (indices n) result c1
      = (c1 @ map (\<lambda>i. (Key i, result ! nat (Pos i))) (indices n), True)"
    by (simp add: set_values_valid)
  from a sv show m: "regexpNode_Match ops n ctx c path
          = (n\<lparr>handler := h, children := ch\<rparr>,
             c1 @ map (\<lambda>i. (Key i, result ! nat (Pos i))) (indices n), Inr e)"
    by (simp add: regexpNode_Match_eq)
  from a show "\<forall>i\<in>set (indices n).
           Container_Get (fst (snd (regexpNode_Match ops n ctx c path))) (Key i)
             = Some (result ! nat (Pos i))"
    unfolding m by (simp add: Container_Get_written)
next
  assume a: "leading_segment path \<noteq> [] \<and>
    downstream ops (handler m) (children m) ctx c (remainder path \<noteq> []) (remainder path)
      = ((hm, chm), cm, Inr em)"
  have v: "(if remainder path \<noteq> [] then leading_segment path else path) = leading_segment path"
    by (simp add: remainder_Nil leading_segment_no_separator)
  from a show m: "fullMatchRegexpNode_Match ops m ctx c path
          = (m\<lparr>handler := hm, children := chm\<rparr>, cm @ [(key m, leading_segment path)], Inr em)"
    using v by (simp add: fullMatchRegexpNode_Match_eq Container_Set_def)
  show "Container_Get (fst (snd (fullMatchRegexpNode_Match ops m ctx c path))) (key m)
          = Some (leading_segment path)"
    unfolding m using Container_Get_Set [of cm "key m" "leading_segment path"]
    by (simp add: Container_Set_def)
qed

lemma segment_42_orders:
  "leading_segment ''42/orders'' = ''42''" "remainder ''42/orders'' = ''/orders''"
  by (simp_all add: leading_segment_def remainder_def)

theorem match_captures_witness:
  "regexp id_node (leading_segment ''42/orders'') = Some [''42'', ''42''] \<and>
   distinct (map Key (indices id_node)) \<and>
   downstream table_ops (handler id_node) (children id_node) () [] (remainder ''42/orders'' \<noteq> [])
     (remainder ''42/orders'') = ((handler id_node, children id_node), [(''list'', ''all'')], Inr 9) \<and>
   regexpNode_Match table_ops id_node () [] ''42/orders''
     = (id_node, [(''list'', ''all''), (''id'', ''42'')], Inr 9) \<and>
   Container_Get (fst (snd (regexpNode_Match table_ops id_node () [] ''42/orders''))) ''id''
     = Some ''42'' \<and>
   leading_segment ''42/orders'' \<noteq> [] \<and>
   fullMatchRegexpNode_Match table_ops (name_node\<lparr>children := children id_node\<rparr>) () [] ''42/orders''
     = (name_node\<lparr>children := children id_node\<rparr>, [(''list'', ''all''), (''name'', ''42'')], Inr 9)"
proof -
  let ?m = "name_node\<lparr>children := children id_node\<rparr>"
  have h1: "regexp id_node (leading_segment ''42/orders'') = Some [''42'', ''42'']"
    by (simp add: id_node_def segment_42_orders digits_42)
  have h2: "\<forall>i\<in>set (indices id_node). 0 \<le> Pos i \<and> Pos i < int (length [''42'', ''42''])"
    by (simp add: id_node_def)
  have h3: "distinct (map Key (indices id_node))"
    by (simp add: id_node_def)
  have h4: "downstream table_ops (handler id_node) (children id_node) () []
     (remainder ''42/orders'' \<noteq> []) (remainder ''42/orders'')
       = ((handler id_node, children id_node), [(''list'', ''all'')], Inr 9)"
    by (simp add: downstream_def table_ops_def id_node_def segment_42_orders)
  have h5: "downstream table_ops (handler ?m) (children ?m) () []
     (remainder ''42/orders'' \<noteq> []) (remainder ''42/orders'')
       = ((handler ?m, children ?m), [(''list'', ''all'')], Inr 9)"
    by (simp add: downstream_def table_ops_def id_node_def name_node_def segment_42_orders)
  have h6: "leading_segment ''42/orders'' \<noteq> []"
    by (simp add: segment_42_orders)
  have i: "indices id_node = [\<lparr>Key = ''id'', Pos = 1\<rparr>]" "key ?m = ''name''"
    by (simp_all add: id_node_def name_node_def)
  show ?thesis
    using h1 h2 h3 h4 h5 h6
      match_captures [of id_node "''42/orders''" "[''42'', ''42'']" table_ops "()" "[]"
        "handler id_node" "children id_node" "[(''list'', ''all'')]" 9
        ?m "handler ?m" "children ?m" "[(''list'', ''all'')]" 9]
    by (simp add: i segment_42_orders Container_Get_def)
qed

text \<open>
  The claim as stated fails: the segment \<open>42\<close> of \<open>42/items\<close> satisfies the pattern and
  the segment \<open>bob\<close> of \<open>bob/items\<close> is not empty, yet both nodes return
  \<open>routerNotFound\<close>, the error of their children, and write nothing.
\<close>

theorem match_succeeds_counterexample:
  "regexp id_node (leading_segment ''42/items'') = Some [''42'', ''42''] \<and>
   regexpNode_Match table_ops id_node () [] ''42/items'' = (id_node, [], Inl routerNotFound) \<and>
   leading_segment ''bob/items'' = ''bob'' \<and>
   fullMatchRegexpNode_Match table_ops name_node () [] ''bob/items''
     = (name_node, [], Inl routerNotFound)"
  by (simp add: regexpNode_Match_def fullMatchRegexpNode_Match_def Let_def leading_segment_def
      id_node_def name_node_def table_ops_def digits_42)

subsection \<open>Catch-all node: a path that begins with the separator\<close>

text \<open>
  For a path that begins with the separator, \<open>IndexByte\<close> is 0, the test \<open>index > 0\<close>
  fails and the catch-all node takes the terminal branch: the result depends on
  \<open>unionExecutor\<close> alone and the children are not consulted. That branch is the one
  written for a path without separator; it sets \<open>index = len(path)\<close>, so on success the
  value written for the key is the entire path.
\<close>

lemma fullMatchRegexpNode_Match_leading_separator:
  "(unionExecutor ops (handler n) ctx = (h, Inr e) \<longrightarrow>
      fullMatchRegexpNode_Match ops n ctx c (CHR ''/'' # rest)
        = (n\<lparr>handler := h\<rparr>, Container_Set c (key n) (CHR ''/'' # rest), Inr e) \<and>
      Container_Get (fst (snd (fullMatchRegexpNode_Match ops n ctx c (CHR ''/'' # rest)))) (key n)
        = Some (CHR ''/'' # rest)) \<and>
   (unionExecutor ops (handler n) ctx = (h, Inl err) \<longrightarrow>
      fullMatchRegexpNode_Match ops n ctx c (CHR ''/'' # rest) = (n\<lparr>handler := h\<rparr>, c, Inl err))"
  by (simp add: fullMatchRegexpNode_Match_def Let_def Container_Get_Set)

text \<open>
  The pattern node that the catch-all node is an optimisation of (\<open>all_node\<close>, the
  pattern \<open>(.*)\<close> with the same key, handler and children) reads the empty segment in
  front of the separator and hands the path to its children: on \<open>/x\<close> it captures the
  empty string, and on \<open>/a/b/c\<close>, which no child accepts, it fails and captures nothing.
\<close>

lemma regexpNode_Match_leading_separator:
  "regexpNode_Match table_ops all_node () [] ''/x'' = (all_node, [(''name'', '''')], Inr 9) \<and>
   regexpNode_Match table_ops all_node () [] ''/a/b/c'' = (all_node, [], Inl routerNotFound)"
  by (simp add: regexpNode_Match_def Let_def all_node_def table_ops_def
      FindStringSubmatch_all_def Container_Set_def)

text \<open>
  C4. The claim: for every path that begins with a separator (an empty leading segment)
  the catch-all node takes the terminal branch, and on success the sink maps the node's
  key to the empty string. The code takes the terminal branch, but the value it writes is
  not the empty leading segment: on the path \<open>/x\<close> the node succeeds with its own
  executor, without consulting its children (which hold \<open>/x\<close>), and the key maps to
  \<open>/x\<close>; on \<open>/a/b/c\<close> the key maps to \<open>/a/b/c\<close>, a value that spans separators.
\<close>

theorem catch_all_leading_separator_divergence:
  "fullMatchRegexpNode_Match table_ops name_node () [] ''/x''
     = (name_node, [(''name'', ''/x'')], Inr 7) \<and>
   Container_Get (fst (snd (fullMatchRegexpNode_Match table_ops name_node () [] ''/x''))) ''name''
     = Some ''/x'' \<and>
   Container_Get (fst (snd (fullMatchRegexpNode_Match table_ops name_node () [] ''/x''))) ''name''
     \<noteq> Some '''' \<and>
   fullMatchRegexpNode_Match table_ops name_node () [] ''/a/b/c''
     = (name_node, [(''name'', ''/a/b/c'')], Inr 7)"
  by (simp add: fullMatchRegexpNode_Match_def Let_def name_node_def table_ops_def
      Container_Set_def Container_Get_def)

subsection \<open>Catch-all node: the capture is literal\<close>

lemma fullMatchRegexpNode_Match_nonempty:
  assumes "leading_segment path \<noteq> []"
  shows "fullMatchRegexpNode_Match ops n ctx c path =
     (case downstream ops (handler n) (children n) ctx c (remainder path \<noteq> []) (remainder path) of
        ((h, ch), c1, Inl err) \<Rightarrow> (n\<lparr>handler := h, children := ch\<rparr>, c1, Inl err)
      | ((h, ch), c1, Inr e) \<Rightarrow>
          (n\<lparr>handler := h, children := ch\<rparr>,
           Container_Set c1 (key n) (leading_segment path), Inr e))"
proof -
  have v: "(if remainder path \<noteq> [] then leading_segment path else path) = leading_segment path"
    by (simp add: remainder_Nil leading_segment_no_separator)
  show ?thesis
    using assms v by (simp add: fullMatchRegexpNode_Match_eq Let_def)
qed

text \<open>
  C8, as the code has it. For every path whose leading segment is not empty, whatever its
  characters, a successful \<open>Match\<close> of the catch-all node writes that segment as it
  stands: the value written is the prefix of the path before its first separator, and the
  key maps to it. The path \<open>a.b*c/x\<close> captures \<open>a.b*c\<close>. The path \<open>/a.b*c/x\<close> of the
  claim begins with the separator: its leading segment is empty and the node captures the
  whole path.
\<close>

theorem catch_all_literal:
  "(leading_segment path \<noteq> [] \<and> snd (snd (fullMatchRegexpNode_Match ops n ctx c path)) = Inr e
    \<longrightarrow> (\<exists>c1. fst (snd (fullMatchRegexpNode_Match ops n ctx c path))
                = Container_Set c1 (key n) (leading_segment path)) \<and>
        Container_Get (fst (snd (fullMatchRegexpNode_Match ops n ctx c path))) (key n)
          = Some (leading_segment path) \<and>
        leading_segment path @ remainder path = path) \<and>
   fullMatchRegexpNode_Match table_ops name_node () [] ''a.b*c/x''
     = (name_node, [(''name'', ''a.b*c'')], Inr 9)"
proof (intro conjI impI)
  assume a: "leading_segment path \<noteq> [] \<and>
    snd (snd (fullMatchRegexpNode_Match ops n ctx c path)) = Inr e"
  obtain h ch c1 r where d:
    "downstream ops (handler n) (children n) ctx c (remainder path \<noteq> []) (remainder path)
       = ((h, ch), c1, r)"
    by (metis prod.exhaust)
  from a have l: "leading_segment path \<noteq> []" and s:
    "snd (snd (fullMatchRegexpNode_Match ops n ctx c path)) = Inr e"
    by simp_all
  from s d l have r: "r = Inr e"
    by (cases r) (simp_all add: fullMatchRegexpNode_Match_nonempty)
  from d r l have m: "fst (snd (fullMatchRegexpNode_Match ops n ctx c path))
      = Container_Set c1 (key n) (leading_segment path)"
    by (simp add: fullMatchRegexpNode_Match_nonempty)
  then show "\<exists>c1. fst (snd (fullMatchRegexpNode_Match ops n ctx c path))
                = Container_Set c1 (key n) (leading_segment path)"
    by blast
  show "Container_Get (fst (snd (fullMatchRegexpNode_Match ops n ctx c path))) (key n)
          = Some (leading_segment path)"
    unfolding m by (rule Container_Get_Set)
  show "leading_segment path @ remainder path = path"
    by (simp add: leading_segment_def remainder_def)
next
  show "fullMatchRegexpNode_Match table_ops name_node () [] ''a.b*c/x''
     = (name_node, [(''name'', ''a.b*c'')], Inr 9)"
    by (simp add: fullMatchRegexpNode_Match_def Let_def name_node_def table_ops_def
        Container_Set_def)
qed

theorem catch_all_literal_witness:
  "leading_segment ''a.b*c/x'' \<noteq> [] \<and>
   snd (snd (fullMatchRegexpNode_Match table_ops name_node () [(''k'', ''v'')] ''a.b*c/x'')) = Inr 9 \<and>
   Container_Get (fst (snd (fullMatchRegexpNode_Match table_ops name_node () [(''k'', ''v'')] ''a.b*c/x'')))
     ''name'' = Some ''a.b*c''"
proof -
  have h1: "leading_segment ''a.b*c/x'' \<noteq> []"
    by (simp add: leading_segment_def)
  have h2: "snd (snd (fullMatchRegexpNode_Match table_ops name_node () [(''k'', ''v'')] ''a.b*c/x'')) = Inr 9"
    by (simp add: fullMatchRegexpNode_Match_def Let_def name_node_def table_ops_def)
  have k: "key name_node = ''name''" "leading_segment ''a.b*c/x'' = ''a.b*c''"
    by (simp_all add: name_node_def leading_segment_def)
  show ?thesis
    using h1 h2 catch_all_literal [of "''a.b*c/x''" table_ops name_node "()" "[(''k'', ''v'')]" 9]
    by (simp add: k)
qed

text \<open>
  On the path \<open>/a.b*c/x\<close> the node takes the terminal branch and the key maps to the
  whole path, not to \<open>a.b*c\<close>.
\<close>

theorem catch_all_literal_counterexample:
  "fullMatchRegexpNode_Match table_ops name_node () [] ''/a.b*c/x''
     = (name_node, [(''name'', ''/a.b*c/x'')], Inr 7) \<and>
   Container_Get (fst (snd (fullMatchRegexpNode_Match table_ops name_node () [] ''/a.b*c/x''))) ''name''
     \<noteq> Some ''a.b*c''"
  by (simp add: fullMatchRegexpNode_Match_def Let_def name_node_def table_ops_def
      Container_Set_def Container_Get_def)

subsection \<open>Pattern node: the match is not anchored\<close>

text \<open>
  C7. The pattern node asks the compiled pattern for a match anywhere in the segment
  (\<open>FindStringSubmatch\<close>) and never compares the matched text, \<open>result[0]\<close>, with the
  segment. So whenever the pattern matches some part of the segment, whether or not the
  matched text is the whole segment, the local match succeeds: \<open>Match\<close> goes on to the downstream
  resolution and to the captures, and returns what they give. There is such a path: with
  the pattern \<open>([0-9]+)\<close> the segment \<open>ab42cd\<close> of the path \<open>ab42cd/orders\<close> is
  covered only in its middle part \<open>42\<close>, and \<open>Match\<close> succeeds and captures \<open>42\<close>.
\<close>

theorem regexpNode_Match_unanchored:
  "(regexp n (leading_segment path) = Some result
    \<longrightarrow> regexpNode_Match ops n ctx c path =
        (case downstream ops (handler n) (children n) ctx c (remainder path \<noteq> []) (remainder path) of
           ((h, ch), c1, Inl err) \<Rightarrow> (n\<lparr>handler := h, children := ch\<rparr>, c1, Inl err)
         | ((h, ch), c1, Inr e) \<Rightarrow>
             (case set_values (indices n) result c1 of
                (c2, True) \<Rightarrow> (n\<lparr>handler := h, children := ch\<rparr>, c2, Inr e)
              | (c2, False) \<Rightarrow> (n\<lparr>handler := h, children := ch\<rparr>, c2, Inl runtimePanic)))) \<and>
   leading_segment ''ab42cd/orders'' = ''ab'' @ ''42'' @ ''cd'' \<and>
   regexp id_node (leading_segment ''ab42cd/orders'') = Some [''42'', ''42''] \<and>
   regexpNode_Match table_ops id_node () [] ''ab42cd/orders''
     = (id_node, [(''list'', ''all''), (''id'', ''42'')], Inr 9)"
proof (intro conjI impI)
  assume "regexp n (leading_segment path) = Some result"
  then show "regexpNode_Match ops n ctx c path =
        (case downstream ops (handler n) (children n) ctx c (remainder path \<noteq> []) (remainder path) of
           ((h, ch), c1, Inl err) \<Rightarrow> (n\<lparr>handler := h, children := ch\<rparr>, c1, Inl err)
         | ((h, ch), c1, Inr e) \<Rightarrow>
             (case set_values (indices n) result c1 of
                (c2, True) \<Rightarrow> (n\<lparr>handler := h, children := ch\<rparr>, c2, Inr e)
              | (c2, False) \<Rightarrow> (n\<lparr>handler := h, children := ch\<rparr>, c2, Inl runtimePanic)))"
    by (simp add: regexpNode_Match_eq)
next
  show "leading_segment ''ab42cd/orders'' = ''ab'' @ ''42'' @ ''cd''"
    by (simp add: leading_segment_def)
  show "regexp id_node (leading_segment ''ab42cd/orders'') = Some [''42'', ''42'']"
    by (simp add: leading_segment_def id_node_def digits_ab42cd)
  show "regexpNode_Match table_ops id_node () [] ''ab42cd/orders''
     = (id_node, [(''list'', ''all''), (''id'', ''42'')], Inr 9)"
    by (simp add: regexpNode_Match_def Let_def id_node_def table_ops_def digits_ab42cd
        Container_Set_def)
qed

theorem regexpNode_Match_unanchored_witness:
  "regexp id_node (leading_segment ''ab42cd'') = Some [''42'', ''42''] \<and>
   hd [''42'', ''42''] \<noteq> leading_segment ''ab42cd'' \<and>
   regexpNode_Match table_ops id_node () [] ''ab42cd'' = (id_node, [(''id'', ''42'')], Inr 7)"
proof -
  have s: "leading_segment ''ab42cd'' = ''ab42cd''" "remainder ''ab42cd'' = []"
    by (simp_all add: leading_segment_def remainder_def)
  have h1: "regexp id_node (leading_segment ''ab42cd'') = Some [''42'', ''42'']"
    by (simp add: s id_node_def digits_ab42cd)
  have h2: "hd [''42'', ''42''] \<noteq> leading_segment ''ab42cd''"
    by (simp add: s)
  have d: "downstream table_ops (handler id_node) (children id_node) () [] False []
      = ((handler id_node, children id_node), [], Inr 7)"
    by (simp add: downstream_def table_ops_def id_node_def)
  have i: "indices id_node = [\<lparr>Key = ''id'', Pos = 1\<rparr>]"
    by (simp add: id_node_def)
  show ?thesis
    using h1 h2
      regexpNode_Match_unanchored [of id_node "''ab42cd''" "[''42'', ''42'']" table_ops "()" "[]"]
    by (simp add: s d i Container_Set_def)
qed

subsection \<open>Match leaves the node as it is\<close>

lemma downstream_read_only:
  assumes "\<forall>ch x s p. fst (children_Match ops ch x s p) = ch"
    and "\<forall>h e. fst (handler_pack ops h e) = h"
    and "\<forall>h x. fst (unionExecutor ops h x) = h"
  shows "fst (downstream ops h ch ctx c delegate rest) = (h, ch)"
proof (cases delegate)
  case True
  obtain ch' c' r where cm: "children_Match ops ch ctx c rest = (ch', c', r)"
    by (metis prod.exhaust)
  with assms(1) have "ch' = ch" by (metis fst_conv)
  moreover have "\<And>e. fst (handler_pack ops h e) = h" using assms(2) by simp
  ultimately show ?thesis
    using True cm unfolding downstream_def
    by (cases r) (simp_all split: prod.splits, metis fst_conv)
next
  case False
  have "fst (unionExecutor ops h ctx) = h" using assms(3) by simp
  with False show ?thesis
    unfolding downstream_def by (auto split: prod.splits)
qed

lemma regexpNode_Match_node:
  "fst (regexpNode_Match ops n ctx c path) =
     (case regexp n (leading_segment path) of
        None \<Rightarrow> n
      | Some result \<Rightarrow>
          (let d = fst (downstream ops (handler n) (children n) ctx c (remainder path \<noteq> [])
                     (remainder path))
           in n\<lparr>handler := fst d, children := snd d\<rparr>))"
  by (simp add: regexpNode_Match_eq Let_def split: option.splits prod.splits sum.splits bool.splits)

lemma fullMatchRegexpNode_Match_node:
  "fst (fullMatchRegexpNode_Match ops m ctx c path) =
     (let d = fst (downstream ops (handler m) (children m) ctx c
                (leading_segment path \<noteq> [] \<and> remainder path \<noteq> []) (remainder path))
      in m\<lparr>handler := fst d, children := snd d\<rparr>)"
  by (simp add: fullMatchRegexpNode_Match_eq Let_def split: prod.splits sum.splits)

lemma spec_collaborators_read_only:
  "fst (children_Match (spec_collaborators cmatch hpack uexec hmerge chmerge) ch x s p) = ch"
  "fst (handler_pack (spec_collaborators cmatch hpack uexec hmerge chmerge) h e) = h"
  "fst (unionExecutor (spec_collaborators cmatch hpack uexec hmerge chmerge) h x) = h"
  by (simp_all add: spec_collaborators_def split: prod.splits)

lemma table_ops_spec:
  "table_ops =
     spec_collaborators
       (\<lambda>ch ctx c rest. case map_of ch rest of
           None \<Rightarrow> (c, Inl routerNotFound)
         | Some (w, e) \<Rightarrow> (c @ w, Inr e))
       (\<lambda>h e. if e = 0 then Inl (otherError ''pack'') else Inr e)
       (\<lambda>h ctx. case h of [] \<Rightarrow> Inl routerNotFound | e # _ \<Rightarrow> Inr e)
       (\<lambda>h h2. (h @ h2, None))
       merge_table"
  by (auto simp: table_ops_def spec_collaborators_def fun_eq_iff split: option.splits)

text \<open>
  C9. For every call of \<open>Match\<close> on either node kind and every path, the node after the
  call is the node before it. The methods assign no field: whatever the collaborators do,
  the pattern source, the compiled matcher, the capture-index list and the key are
  unchanged. The embedded handler and children are touched through their own methods only
  (\<open>children.Match\<close>, \<open>handler.pack\<close>, \<open>unionExecutor\<close>); with these methods as the
  specification gives them (\<open>spec_collaborators\<close>), the handler and the children are
  unchanged too, so the whole node is, and the sink is the only state the call writes.
\<close>

theorem match_frame:
  "indices (fst (regexpNode_Match ops n ctx c path)) = indices n \<and>
   exp (fst (regexpNode_Match ops n ctx c path)) = exp n \<and>
   regexp (fst (regexpNode_Match ops n ctx c path)) = regexp n \<and>
   key (fst (fullMatchRegexpNode_Match ops m ctx c path)) = key m \<and>
   fst (regexpNode_Match (spec_collaborators cmatch hpack uexec hmerge chmerge) n ctx c path) = n \<and>
   fst (fullMatchRegexpNode_Match (spec_collaborators cmatch hpack uexec hmerge chmerge) m ctx c path) = m"
proof (intro conjI)
  show "indices (fst (regexpNode_Match ops n ctx c path)) = indices n"
    by (simp add: regexpNode_Match_node Let_def split: option.splits)
  show "exp (fst (regexpNode_Match ops n ctx c path)) = exp n"
    by (simp add: regexpNode_Match_node Let_def split: option.splits)
  show "regexp (fst (regexpNode_Match ops n ctx c path)) = regexp n"
    by (simp add: regexpNode_Match_node Let_def split: option.splits)
  show "key (fst (fullMatchRegexpNode_Match ops m ctx c path)) = key m"
    by (simp add: fullMatchRegexpNode_Match_node Let_def)
next
  let ?ops = "spec_collaborators cmatch hpack uexec hmerge chmerge"
  have d: "\<And>h ch delegate rest. fst (downstream ?ops h ch ctx c delegate rest) = (h, ch)"
    by (rule downstream_read_only) (simp_all add: spec_collaborators_read_only)
  show "fst (regexpNode_Match ?ops n ctx c path) = n"
    by (simp add: regexpNode_Match_node d split: option.splits)
  show "fst (fullMatchRegexpNode_Match ?ops m ctx c path) = m"
    by (simp add: fullMatchRegexpNode_Match_node d)
qed

text \<open>
  An instance: the stand-in collaborators are of that form, and matching \<open>42/orders\<close>
  leaves both nodes as they were while the sink receives the captures.
\<close>

theorem match_frame_witness:
  "fst (regexpNode_Match table_ops id_node () [] ''42/orders'') = id_node \<and>
   fst (fullMatchRegexpNode_Match table_ops name_node () [] ''42/orders'') = name_node \<and>
   snd (regexpNode_Match table_ops id_node () [] ''42/orders'')
     = ([(''list'', ''all''), (''id'', ''42'')], Inr 9)"
proof -
  have r: "snd (regexpNode_Match table_ops id_node () [] ''42/orders'')
     = ([(''list'', ''all''), (''id'', ''42'')], Inr 9)"
    by (simp add: regexpNode_Match_def Let_def id_node_def table_ops_def digits_42
        Container_Set_def)
  have f: "fst (regexpNode_Match table_ops id_node () [] ''42/orders'') = id_node \<and>
   fst (fullMatchRegexpNode_Match table_ops name_node () [] ''42/orders'') = name_node"
    unfolding table_ops_spec
    using match_frame [where n = id_node and m = name_node and ctx = "()" and c = "[]"
        and path = "''42/orders''"]
    by blast
  from f r show ?thesis by simp
qed

subsection \<open>Catch-all node: every segment is accepted\<close>

lemma downstream_error_origin:
  assumes "snd (snd (downstream ops h ch ctx c delegate rest)) = Inl err"
  shows "snd (snd (children_Match ops ch ctx c rest)) = Inl err \<or>
         (\<exists>e. snd (handler_pack ops h e) = Inl err) \<or>
         snd (unionExecutor ops h ctx) = Inl err"
proof (cases delegate)
  case True
  obtain ch' c' r where cm: "children_Match ops ch ctx c rest = (ch', c', r)"
    by (metis prod.exhaust)
  show ?thesis
  proof (cases r)
    case (Inl x)
    with assms True cm show ?thesis by (simp add: downstream_def)
  next
    case (Inr e)
    with assms True cm have "snd (handler_pack ops h e) = Inl err"
      by (simp add: downstream_def split: prod.splits)
    then show ?thesis by blast
  qed
next
  case False
  with assms show ?thesis by (simp add: downstream_def split: prod.splits)
qed

text \<open>
  C10. The catch-all node never rejects a path on its own segment: for every path, the
  empty path and the paths with an empty leading segment included, the result of \<open>Match\<close>
  is the result of the downstream resolution. So every error it returns is an error
  returned by \<open>children.Match\<close>, by \<open>handler.pack\<close> or by \<open>unionExecutor\<close>; and on
  success the sink is the sink the collaborators left followed by exactly one write, for
  the node's key.
\<close>

theorem fullMatchRegexpNode_Match_accepts:
  "snd (snd (fullMatchRegexpNode_Match ops n ctx c path))
     = snd (snd (downstream ops (handler n) (children n) ctx c
         (leading_segment path \<noteq> [] \<and> remainder path \<noteq> []) (remainder path))) \<and>
   (snd (snd (fullMatchRegexpNode_Match ops n ctx c path)) = Inl err \<longrightarrow>
      snd (snd (children_Match ops (children n) ctx c (remainder path))) = Inl err \<or>
      (\<exists>e. snd (handler_pack ops (handler n) e) = Inl err) \<or>
      snd (unionExecutor ops (handler n) ctx) = Inl err) \<and>
   (snd (snd (fullMatchRegexpNode_Match ops n ctx c path)) = Inr e \<longrightarrow>
      (\<exists>v. fst (snd (fullMatchRegexpNode_Match ops n ctx c path))
         = fst (snd (downstream ops (handler n) (children n) ctx c
             (leading_segment path \<noteq> [] \<and> remainder path \<noteq> []) (remainder path)))
           @ [(key n, v)]))"
proof -
  let ?d = "downstream ops (handler n) (children n) ctx c
         (leading_segment path \<noteq> [] \<and> remainder path \<noteq> []) (remainder path)"
  obtain h ch c1 r where d: "?d = ((h, ch), c1, r)"
    by (metis prod.exhaust)
  have res: "snd (snd (fullMatchRegexpNode_Match ops n ctx c path)) = snd (snd ?d)"
    using d by (cases r) (simp_all add: fullMatchRegexpNode_Match_eq Let_def)
  have err: "snd (snd (fullMatchRegexpNode_Match ops n ctx c path)) = Inl err \<longrightarrow>
      snd (snd (children_Match ops (children n) ctx c (remainder path))) = Inl err \<or>
      (\<exists>e. snd (handler_pack ops (handler n) e) = Inl err) \<or>
      snd (unionExecutor ops (handler n) ctx) = Inl err"
    unfolding res by (rule impI) (rule downstream_error_origin)
  have ok: "snd (snd (fullMatchRegexpNode_Match ops n ctx c path)) = Inr e \<longrightarrow>
      (\<exists>v. fst (snd (fullMatchRegexpNode_Match ops n ctx c path)) = fst (snd ?d) @ [(key n, v)])"
    using d by (cases r) (simp_all add: fullMatchRegexpNode_Match_eq Let_def Container_Set_def)
  from res err ok show ?thesis by blast
qed

theorem fullMatchRegexpNode_Match_accepts_witness:
  "snd (snd (fullMatchRegexpNode_Match table_ops name_node () [] ''bob/items'')) = Inl routerNotFound \<and>
   snd (snd (children_Match table_ops (children name_node) () [] (remainder ''bob/items'')))
     = Inl routerNotFound \<and>
   fullMatchRegexpNode_Match table_ops name_node () [] '''' = (name_node, [(''name'', '''')], Inr 7) \<and>
   fullMatchRegexpNode_Match table_ops name_node () [] ''/'' = (name_node, [(''name'', ''/'')], Inr 7)"
proof -
  have h1: "snd (snd (fullMatchRegexpNode_Match table_ops name_node () [] ''bob/items'')) = Inl routerNotFound"
    by (simp add: fullMatchRegexpNode_Match_def Let_def name_node_def table_ops_def)
  have h2: "snd (snd (fullMatchRegexpNode_Match table_ops name_node () [] '''')) = Inr 7"
    by (simp add: fullMatchRegexpNode_Match_def Let_def name_node_def table_ops_def)
  have c: "snd (snd (children_Match table_ops (children name_node) () [] (remainder ''bob/items'')))
     = Inl routerNotFound"
    by (simp add: remainder_def name_node_def table_ops_def)
  have e: "fullMatchRegexpNode_Match table_ops name_node () [] '''' = (name_node, [(''name'', '''')], Inr 7)"
    "fullMatchRegexpNode_Match table_ops name_node () [] ''/'' = (name_node, [(''name'', ''/'')], Inr 7)"
    by (simp_all add: fullMatchRegexpNode_Match_def Let_def name_node_def table_ops_def
        Container_Set_def)
  show ?thesis
    using h1 h2 c e
      fullMatchRegexpNode_Match_accepts [of table_ops name_node "()" "[]" "''bob/items''" routerNotFound 7]
      fullMatchRegexpNode_Match_accepts [of table_ops name_node "()" "[]" "''''" routerNotFound 7]
    by simp
qed

end
